theory Spec2Isabelle
  imports Main "HOL-Library.AList"
begin

section \<open>The file system and the metadata reader, as the validator sees them\<close>

text \<open>
  The validator of \<^verbatim>\<open>parquet_validator.py\<close> walks a directory tree twice and opens
  every file whose suffix is \<^verbatim>\<open>.parquet\<close>. What \<^verbatim>\<open>pq.ParquetFile(item)\<close> and
  \<^verbatim>\<open>parquet_file.metadata.row_group(0).column(0).file_path\<close> do with a file is not
  code of the validator, so a file carries the outcome of both calls: opening raises
  (with the text of the exception), or it yields a schema and then the extraction of
  the stored path either raises (for instance a file with no row group) or yields a
  string. The schema is an opaque type \<open>'s\<close> that is only ever compared by equality.
\<close>

datatype 's parquet =
    OpenFails string
  | Opened 's "string + string"

datatype 's node =
    Dir string "'s node list"
  | File string "'s parquet"

text \<open>
  The base path: \<^verbatim>\<open>Path.exists()\<close> and \<^verbatim>\<open>Path.iterdir()\<close>. The latter raises for a
  path that is no directory (\<open>Inl\<close> carries \<^verbatim>\<open>str(e)\<close>), otherwise it lists the entries.
\<close>

record 's base =
  path_exists :: bool
  iterdir :: "string + 's node list"

section \<open>Entries of the error list\<close>

text \<open>
  \<^verbatim>\<open>self.errors\<close> is a list of strings. Each constructor below is one entry of that list,
  in the form one \<^verbatim>\<open>append\<close> of the source produces it; a path is kept as the list of
  names below the base path. \<open>render\<close> gives the text of an entry, with
  \<^verbatim>\<open>str(self.base_path / ...)\<close> and the text of a schema taken as parameters.
\<close>

datatype 's message =
    BasePathMissing
  | ConflictingStructures
  | SuspiciousPath "string list"
  | Remediation
  | SchemaMismatch "string list" 's 's
  | PartitionValueMismatch "string list" string string
  | ReadError "string list" string
  | Unexpected string

fun render :: "(string list \<Rightarrow> string) \<Rightarrow> ('s \<Rightarrow> string) \<Rightarrow> 's message \<Rightarrow> string" where
  "render show_path show_schema BasePathMissing =
     ''Base path '' @ show_path [] @ '' does not exist''"
| "render show_path show_schema ConflictingStructures =
     ''[CONFLICTING_DIRECTORY_STRUCTURES] Conflicting directory structures detected.'' @ [CHR 0x0A]
       @ ''Suspicious paths:'' @ [CHR 0x0A]"
| "render show_path show_schema (SuspiciousPath p) = CHR 0x09 # show_path p"
| "render show_path show_schema Remediation =
     [CHR 0x0A] @ ''If provided paths are partition directories, please set 'basePath' in the options ''
       @ ''of the data source to specify the root directory of the table.'' @ [CHR 0x0A]
       @ ''If there are multiple root directories, please load them separately and then union them.''"
| "render show_path show_schema (SchemaMismatch item expected found) =
     ''Schema mismatch in '' @ show_path item @ ''. Expected schema: '' @ show_schema expected
       @ '', Found schema: '' @ show_schema found"
| "render show_path show_schema (PartitionValueMismatch item v k) =
     ''Partition value mismatch in '' @ show_path item @ ''. Value '' @ v
       @ '' not found in partition '' @ k"
| "render show_path show_schema (ReadError item e) =
     ''Error reading parquet file '' @ show_path item @ '': '' @ e"
| "render show_path show_schema (Unexpected e) =
     ''Unexpected error during validation: '' @ e"

section \<open>The validator's state\<close>

text \<open>
  The fields of \<^verbatim>\<open>ParquetValidator\<close>. \<^verbatim>\<open>directory_structures\<close> is a dictionary that is
  iterated, so it is an association list in insertion order (\<open>AList.update\<close> replaces
  a key in place and appends a new one, as a Python dictionary does). A Python set that
  is iterated is a duplicate-free list; Python leaves the order of that iteration open,
  the model takes the reverse order of insertion.
\<close>

record 's validator =
  schema :: "'s option"
  partition_columns :: "string set"
  partition_values :: "string \<rightharpoonup> string set"
  errors :: "'s message list"
  directory_structures :: "(nat \<times> string list list) list"

definition init :: "'s validator" where
  "init = \<lparr>schema = None, partition_columns = {}, partition_values = Map.empty,
           errors = [], directory_structures = []\<rparr>"

section \<open>Strings\<close>

text \<open>\<^verbatim>\<open>"=" in name\<close>.\<close>

definition has_eq :: "string \<Rightarrow> bool" where
  "has_eq name = (CHR ''='' \<in> set name)"

text \<open>\<^verbatim>\<open>s.split("=", 1)\<close> for a string that contains the separator: the part before the
  first occurrence and the part after it.\<close>

definition split_first :: "string \<Rightarrow> string \<times> string" where
  "split_first s =
     (takeWhile (\<lambda>c. c \<noteq> CHR ''='') s, drop 1 (dropWhile (\<lambda>c. c \<noteq> CHR ''='') s))"

text \<open>\<^verbatim>\<open>s.split('/')\<close>: an empty string gives one empty segment.\<close>

fun split_slash :: "string \<Rightarrow> string list" where
  "split_slash [] = [[]]"
| "split_slash (c # cs) =
     (if c = CHR ''/'' then [] # split_slash cs
      else (case split_slash cs of [] \<Rightarrow> [[c]] | w # ws \<Rightarrow> (c # w) # ws))"

text \<open>\<^verbatim>\<open>Path.suffix\<close> of a file name: from the last dot on, unless that dot is the first or
  the last character of the name.\<close>

definition suffix :: "string \<Rightarrow> string" where
  "suffix name =
     (let ext = rev (takeWhile (\<lambda>c. c \<noteq> CHR ''.'') (rev name))
      in if CHR ''.'' \<in> set name \<and> ext \<noteq> [] \<and> Suc (length ext) < length name
         then CHR ''.'' # ext else [])"

section \<open>First pass: \<^verbatim>\<open>_validate_folder_structure\<close>\<close>

text \<open>Lines 56 to 59: the tuple is added to the set stored for its level.\<close>

definition add_structure ::
  "nat \<Rightarrow> string list \<Rightarrow> (nat \<times> string list list) list \<Rightarrow> (nat \<times> string list list) list" where
  "add_structure level new_structure ds =
     AList.update level
       (List.insert new_structure (case map_of ds level of None \<Rightarrow> [] | Some l \<Rightarrow> l)) ds"

text \<open>Lines 61 to 67: a name that contains \<^verbatim>\<open>=\<close> is split at the first one.\<close>

definition record_partition :: "string \<Rightarrow> 's validator \<Rightarrow> 's validator" where
  "record_partition name st =
     (if has_eq name then
        (let (partition_key, partition_value) = split_first name;
             old = (case partition_values st partition_key of None \<Rightarrow> {} | Some vs \<Rightarrow> vs)
         in st\<lparr>partition_columns := insert partition_key (partition_columns st),
               partition_values := (partition_values st)(partition_key \<mapsto> insert partition_value old)\<rparr>)
      else st)"

fun validate_folder_structure ::
  "'s node list \<Rightarrow> string list \<Rightarrow> 's validator \<Rightarrow> 's validator" where
  "validate_folder_structure [] current_structure st = st"
| "validate_folder_structure (File name content # items) current_structure st =
     validate_folder_structure items current_structure st"
| "validate_folder_structure (Dir name sub # items) current_structure st =
     (let new_structure = current_structure @ [name];
          level = length new_structure;
          st1 = st\<lparr>directory_structures :=
                     add_structure level new_structure (directory_structures st)\<rparr>;
          st2 = record_partition name st1;
          st3 = validate_folder_structure sub new_structure st2
      in validate_folder_structure items current_structure st3)"

section \<open>Conflict detection: \<^verbatim>\<open>_check_conflicting_structures\<close>\<close>

text \<open>Lines 77 and 78: the first name of a tuple that is not empty goes to the set.\<close>

definition add_root :: "string list \<Rightarrow> string list \<Rightarrow> string list" where
  "add_root structure root_paths =
     (case structure of [] \<Rightarrow> root_paths | r # _ \<Rightarrow> List.insert r root_paths)"

text \<open>Lines 73 to 78: the loop over every tuple of every level.\<close>

definition root_paths_of :: "(nat \<times> string list list) list \<Rightarrow> string list" where
  "root_paths_of ds =
     fold (\<lambda>(level, structures) root_paths. fold add_root structures root_paths) ds []"

text \<open>Lines 103 to 108: the keys of all names of all tuples stored for one level.\<close>

definition level_keys :: "string list list \<Rightarrow> string list" where
  "level_keys structures =
     fold (\<lambda>structure acc.
             fold (\<lambda>dir_name acc.
                     if has_eq dir_name then List.insert (fst (split_first dir_name)) acc
                     else acc)
                  structure acc)
          structures []"

text \<open>Lines 101 to 125: the levels in the dictionary's order, up to the first conflict.\<close>

fun check_levels ::
  "(nat \<times> string list list) list \<Rightarrow> 's validator \<Rightarrow> 's validator" where
  "check_levels [] st = st"
| "check_levels ((level, structures) # rest) st =
     (if length (level_keys structures) > 1
      then st\<lparr>errors := errors st @ [ConflictingStructures]
                 @ map SuspiciousPath structures @ [Remediation]\<rparr>
      else check_levels rest st)"

definition check_conflicting_structures :: "'s validator \<Rightarrow> 's validator" where
  "check_conflicting_structures st =
     (let root_paths = root_paths_of (directory_structures st)
      in if length root_paths > 1 \<and> \<not> list_all has_eq root_paths
         then st\<lparr>errors := errors st @ [ConflictingStructures]
                    @ map (\<lambda>root_path. SuspiciousPath [root_path]) root_paths
                    @ [Remediation]\<rparr>
         else check_levels (directory_structures st) st)"

section \<open>Second pass: \<^verbatim>\<open>_validate_parquet_files\<close>\<close>

text \<open>Lines 148 to 155: the loop over the segments of the stored path.\<close>

fun check_partitions :: "string list \<Rightarrow> string list \<Rightarrow> 's validator \<Rightarrow> 's validator" where
  "check_partitions item [] st = st"
| "check_partitions item (segment # rest) st =
     check_partitions item rest
       (if has_eq segment then
          (let (k, v) = split_first segment
           in (case partition_values st k of
                 None \<Rightarrow> st
               | Some vs \<Rightarrow>
                   if v \<notin> vs
                   then st\<lparr>errors := errors st @ [PartitionValueMismatch item v k]\<rparr>
                   else st))
        else st)"

text \<open>Lines 138 to 144.\<close>

definition check_schema :: "string list \<Rightarrow> 's \<Rightarrow> 's validator \<Rightarrow> 's validator" where
  "check_schema item file_schema st =
     (case schema st of
        None \<Rightarrow> st\<lparr>schema := Some file_schema\<rparr>
      | Some reference \<Rightarrow>
          if reference \<noteq> file_schema
          then st\<lparr>errors := errors st @ [SchemaMismatch item reference file_schema]\<rparr>
          else st)"

text \<open>
  The body of the \<^verbatim>\<open>try\<close> of lines 133 to 155. It returns the state it has reached,
  and the text of the exception when one was raised: what was written to the state
  before the exception stays written.
\<close>

definition try_file ::
  "string list \<Rightarrow> 's parquet \<Rightarrow> 's validator \<Rightarrow> 's validator \<times> string option" where
  "try_file item content st =
     (case content of
        OpenFails e \<Rightarrow> (st, Some e)
      | Opened file_schema stored \<Rightarrow>
          (let st1 = check_schema item file_schema st
           in (case stored of
                 Inl e \<Rightarrow> (st1, Some e)
               | Inr file_path \<Rightarrow> (check_partitions item (split_slash file_path) st1, None))))"

text \<open>The \<^verbatim>\<open>try\<close> with its \<^verbatim>\<open>except Exception\<close> of lines 157 and 158.\<close>

definition check_file :: "string list \<Rightarrow> 's parquet \<Rightarrow> 's validator \<Rightarrow> 's validator" where
  "check_file item content st =
     (case try_file item content st of
        (st1, None) \<Rightarrow> st1
      | (st1, Some e) \<Rightarrow> st1\<lparr>errors := errors st1 @ [ReadError item e]\<rparr>)"

fun validate_parquet_files ::
  "'s node list \<Rightarrow> string list \<Rightarrow> 's validator \<Rightarrow> 's validator" where
  "validate_parquet_files [] path st = st"
| "validate_parquet_files (Dir name sub # items) path st =
     validate_parquet_files items path (validate_parquet_files sub (path @ [name]) st)"
| "validate_parquet_files (File name content # items) path st =
     validate_parquet_files items path
       (if suffix name = ''.parquet'' then check_file (path @ [name]) content st else st)"

section \<open>The run: \<^verbatim>\<open>validate\<close> and \<^verbatim>\<open>main\<close>\<close>

text \<open>
  \<^verbatim>\<open>validate\<close> returns its boolean and leaves the validator in its final state. The only
  exception the model raises inside the outer \<^verbatim>\<open>try\<close> is the one of \<^verbatim>\<open>iterdir\<close> on the
  base path, at the first statement of the first pass.
\<close>

definition validate :: "'s base \<Rightarrow> 's validator \<Rightarrow> bool \<times> 's validator" where
  "validate b st =
     (if \<not> path_exists b then (False, st\<lparr>errors := errors st @ [BasePathMissing]\<rparr>)
      else (case iterdir b of
              Inl e \<Rightarrow> (False, st\<lparr>errors := errors st @ [Unexpected e]\<rparr>)
            | Inr items \<Rightarrow>
                (let st1 = validate_folder_structure items [] st;
                     st2 = check_conflicting_structures st1;
                     st3 = validate_parquet_files items [] st2
                 in if errors st3 \<noteq> [] then (False, st3) else (True, st3))))"

text \<open>\<^verbatim>\<open>main\<close>: the exit code of the process, for a fresh validator.\<close>

definition main :: "'s base \<Rightarrow> nat" where
  "main b = (let (success, st) = validate b init in if \<not> success then 1 else 0)"

text \<open>The final state of a run on a base path that is a directory with the given entries.\<close>

definition run :: "'s node list \<Rightarrow> 's validator" where
  "run items = snd (validate \<lparr>path_exists = True, iterdir = Inr items\<rparr> init)"

section \<open>Notions used in the statements\<close>

subsection \<open>The directories of a tree\<close>

text \<open>The path tuples of all directories below a tuple, in the order of the first pass.\<close>

fun dirs :: "'s node list \<Rightarrow> string list \<Rightarrow> string list list" where
  "dirs [] cur = []"
| "dirs (File name content # items) cur = dirs items cur"
| "dirs (Dir name sub # items) cur =
     (cur @ [name]) # dirs sub (cur @ [name]) @ dirs items cur"

text \<open>What the first pass does at one directory, given its tuple (lines 53 to 67).\<close>

definition visit :: "string list \<Rightarrow> 's validator \<Rightarrow> 's validator" where
  "visit t st =
     record_partition (last t)
       (st\<lparr>directory_structures := add_structure (length t) t (directory_structures st)\<rparr>)"

text \<open>The names of all directories of a tree, and of those directly below the base path.\<close>

fun dir_names :: "'s node list \<Rightarrow> string list" where
  "dir_names [] = []"
| "dir_names (File name content # items) = dir_names items"
| "dir_names (Dir name sub # items) = name # dir_names sub @ dir_names items"

fun top_names :: "'s node list \<Rightarrow> string list" where
  "top_names [] = []"
| "top_names (File name content # items) = top_names items"
| "top_names (Dir name sub # items) = name # top_names items"

text \<open>The values recorded for a key; no value for a key that is not in the dictionary.\<close>

definition values_of :: "'s validator \<Rightarrow> string \<Rightarrow> string set" where
  "values_of st k = (case partition_values st k of None \<Rightarrow> {} | Some vs \<Rightarrow> vs)"

text \<open>All tuples of the dictionary, the tuples stored for one level, and the first names
  of a set of tuples.\<close>

definition tuples :: "(nat \<times> string list list) list \<Rightarrow> string list set" where
  "tuples ds = (\<Union>(level, structures) \<in> set ds. set structures)"

definition level_structures :: "(nat \<times> string list list) list \<Rightarrow> nat \<Rightarrow> string list set" where
  "level_structures ds level = (case map_of ds level of None \<Rightarrow> {} | Some l \<Rightarrow> set l)"

definition first_segments :: "string list set \<Rightarrow> string set" where
  "first_segments S = {r. \<exists>rest. r # rest \<in> S}"

subsection \<open>The files of a tree\<close>

text \<open>The files the second pass opens, each with its path, in the order of that pass.\<close>

fun parquet_files :: "'s node list \<Rightarrow> string list \<Rightarrow> (string list \<times> 's parquet) list" where
  "parquet_files [] path = []"
| "parquet_files (Dir name sub # items) path =
     parquet_files sub (path @ [name]) @ parquet_files items path"
| "parquet_files (File name content # items) path =
     (if suffix name = ''.parquet'' then [(path @ [name], content)] else [])
       @ parquet_files items path"

definition check_entry :: "string list \<times> 's parquet \<Rightarrow> 's validator \<Rightarrow> 's validator" where
  "check_entry f st = check_file (fst f) (snd f) st"

fun is_schema_mismatch :: "'s message \<Rightarrow> bool" where
  "is_schema_mismatch (SchemaMismatch item r s) = True"
| "is_schema_mismatch m = False"

fun is_partition_mismatch :: "'s message \<Rightarrow> bool" where
  "is_partition_mismatch (PartitionValueMismatch item v k) = True"
| "is_partition_mismatch m = False"

fun is_read_error :: "'s message \<Rightarrow> bool" where
  "is_read_error (ReadError item e) = True"
| "is_read_error m = False"

text \<open>A segment of a stored path with \<^verbatim>\<open>=\<close> whose key is in the dictionary of values
  and whose value is not among the values recorded for that key.\<close>

definition offending :: "(string \<rightharpoonup> string set) \<Rightarrow> string \<Rightarrow> bool" where
  "offending pv seg =
     (has_eq seg \<and> (\<exists>vs. pv (fst (split_first seg)) = Some vs \<and> snd (split_first seg) \<notin> vs))"

text \<open>The entries expected for one file: one per offending segment of its stored path;
  one when either call of the reader raises; one when its schema differs from the
  reference.\<close>

definition partition_mismatches ::
  "(string \<rightharpoonup> string set) \<Rightarrow> string list \<times> 's parquet \<Rightarrow> 's message list" where
  "partition_mismatches pv f =
     (case snd f of
        Opened s (Inr file_path) \<Rightarrow>
          map (\<lambda>seg. PartitionValueMismatch (fst f) (snd (split_first seg)) (fst (split_first seg)))
              (filter (offending pv) (split_slash file_path))
      | _ \<Rightarrow> [])"

definition read_errors :: "string list \<times> 's parquet \<Rightarrow> 's message list" where
  "read_errors f =
     (case snd f of
        OpenFails e \<Rightarrow> [ReadError (fst f) e]
      | Opened s (Inl e) \<Rightarrow> [ReadError (fst f) e]
      | Opened s (Inr file_path) \<Rightarrow> [])"

definition schema_mismatches :: "'s option \<Rightarrow> string list \<times> 's parquet \<Rightarrow> 's message list" where
  "schema_mismatches reference f =
     (case (reference, snd f) of
        (Some r, Opened s stored) \<Rightarrow> if s \<noteq> r then [SchemaMismatch (fst f) r s] else []
      | _ \<Rightarrow> [])"

text \<open>The schema of the first file that opens, and the reference that is in force after
  a list of files when it was \<open>r\<close> before them.\<close>

fun first_opened :: "(string list \<times> 's parquet) list \<Rightarrow> 's option" where
  "first_opened [] = None"
| "first_opened ((p, OpenFails e) # fs) = first_opened fs"
| "first_opened ((p, Opened s stored) # fs) = Some s"

definition reference_of :: "'s option \<Rightarrow> (string list \<times> 's parquet) list \<Rightarrow> 's option" where
  "reference_of r fs = (case r of Some x \<Rightarrow> Some x | None \<Rightarrow> first_opened fs)"

text \<open>The schema of the first file for which both calls of the reader succeed, that is,
  the first file for which no read error is recorded.\<close>

fun first_fully_read :: "(string list \<times> 's parquet) list \<Rightarrow> 's option" where
  "first_fully_read [] = None"
| "first_fully_read ((p, Opened s (Inr file_path)) # fs) = Some s"
| "first_fully_read (f # fs) = first_fully_read fs"

section \<open>Facts about the first pass\<close>

lemmas eval_defs =
  run_def validate_def init_def add_structure_def record_partition_def has_eq_def
  split_first_def check_conflicting_structures_def root_paths_of_def add_root_def
  level_keys_def suffix_def check_file_def try_file_def check_schema_def

lemma vfs_fold: "validate_folder_structure items cur st = fold visit (dirs items cur) st"
  by (induction items cur st rule: validate_folder_structure.induct)
     (simp_all add: visit_def Let_def)

lemma last_dirs: "map last (dirs items cur) = dir_names items"
  by (induction items cur rule: dirs.induct) simp_all

lemma last_dirs_set: "last ` set (dirs items cur) = set (dir_names items)"
  using last_dirs[of items cur] by (metis set_map)

lemma dirs_shape:
  "t \<in> set (dirs items cur) \<Longrightarrow> \<exists>n rest. n \<in> set (top_names items) \<and> t = cur @ n # rest"
  by (induction items cur rule: dirs.induct) auto

lemma dirs_top: "n \<in> set (top_names items) \<Longrightarrow> cur @ [n] \<in> set (dirs items cur)"
  by (induction items cur rule: dirs.induct) auto

lemma split_first_decomp:
  "has_eq s \<Longrightarrow>
     s = fst (split_first s) @ ''='' @ snd (split_first s)
     \<and> CHR ''='' \<notin> set (fst (split_first s))"
  unfolding has_eq_def split_first_def by (induction s) auto

lemma split_first_compose: "CHR ''='' \<notin> set k \<Longrightarrow> split_first (k @ ''='' @ v) = (k, v)"
  by (induction k) (auto simp: split_first_def)

lemma split_first_iff:
  "(has_eq n \<and> split_first n = (k, v)) = (n = k @ CHR ''='' # v \<and> CHR ''='' \<notin> set k)"
proof
  assume "has_eq n \<and> split_first n = (k, v)"
  with split_first_decomp[of n] show "n = k @ CHR ''='' # v \<and> CHR ''='' \<notin> set k"
    by simp
next
  assume "n = k @ CHR ''='' # v \<and> CHR ''='' \<notin> set k"
  then show "has_eq n \<and> split_first n = (k, v)"
    using split_first_compose[of k v] by (simp add: has_eq_def)
qed

lemma visit_frame [simp]:
  "errors (visit t st) = errors st"
  "schema (visit t st) = schema st"
  "directory_structures (visit t st) = add_structure (length t) t (directory_structures st)"
  by (simp_all add: visit_def record_partition_def split_beta Let_def)

lemma fold_visit_frame:
  "errors (fold visit ts st) = errors st \<and> schema (fold visit ts st) = schema st"
  by (induction ts arbitrary: st) simp_all

lemma visit_columns:
  "partition_columns (visit t st) =
     partition_columns st \<union> {k. has_eq (last t) \<and> fst (split_first (last t)) = k}"
  by (auto simp: visit_def record_partition_def split_beta Let_def)

lemma visit_dom:
  "dom (partition_values (visit t st)) =
     dom (partition_values st) \<union> {k. has_eq (last t) \<and> fst (split_first (last t)) = k}"
  by (auto simp: visit_def record_partition_def split_beta Let_def)

lemma visit_values_of:
  "values_of (visit t st) k =
     values_of st k \<union> {v. has_eq (last t) \<and> split_first (last t) = (k, v)}"
  by (cases "split_first (last t)")
     (auto simp: visit_def record_partition_def Let_def values_of_def)

lemma fold_visit_columns:
  "partition_columns (fold visit ts st) =
     partition_columns st \<union> {k. \<exists>n \<in> last ` set ts. has_eq n \<and> fst (split_first n) = k}"
  by (induction ts arbitrary: st) (auto simp: visit_columns)

lemma fold_visit_dom:
  "dom (partition_values (fold visit ts st)) =
     dom (partition_values st) \<union> {k. \<exists>n \<in> last ` set ts. has_eq n \<and> fst (split_first n) = k}"
  by (induction ts arbitrary: st) (auto simp: visit_dom)

lemma fold_visit_values_of:
  "values_of (fold visit ts st) k =
     values_of st k \<union> {v. \<exists>n \<in> last ` set ts. has_eq n \<and> split_first n = (k, v)}"
  by (induction ts arbitrary: st) (auto simp: visit_values_of)

lemma values_of_init: "values_of init k = {}"
  by (simp add: values_of_def init_def)

lemma key_of_some_name:
  "(\<exists>n \<in> N. has_eq n \<and> fst (split_first n) = k)
     = (\<exists>v. k @ CHR ''='' # v \<in> N \<and> CHR ''='' \<notin> set k)"
proof -
  have "(\<exists>n \<in> N. has_eq n \<and> fst (split_first n) = k)
      = (\<exists>n \<in> N. \<exists>v. has_eq n \<and> split_first n = (k, v))"
    by (metis fst_conv prod.collapse)
  also have "\<dots> = (\<exists>v. k @ CHR ''='' # v \<in> N \<and> CHR ''='' \<notin> set k)"
    unfolding split_first_iff by blast
  finally show ?thesis .
qed

subsection \<open>The dictionary of tuples\<close>

lemma tuples_Nil [simp]: "tuples [] = {}"
  by (simp add: tuples_def)

lemma tuples_Cons [simp]: "tuples ((level, structures) # ds) = set structures \<union> tuples ds"
  by (simp add: tuples_def)

lemma tuples_add: "tuples (add_structure level t ds) = insert t (tuples ds)"
proof (induction ds)
  case Nil
  show ?case by (simp add: add_structure_def)
next
  case (Cons p ds)
  obtain k v where p: "p = (k, v)" by (cases p)
  show ?case
  proof (cases "k = level")
    case True
    then show ?thesis by (simp add: p add_structure_def)
  next
    case False
    with Cons show ?thesis by (simp add: p add_structure_def)
  qed
qed

lemma level_structures_Nil [simp]: "level_structures [] l = {}"
  by (simp add: level_structures_def)

lemma level_structures_add:
  "level_structures (add_structure level t ds) l =
     (if l = level then insert t (level_structures ds level) else level_structures ds l)"
  by (simp add: add_structure_def level_structures_def AList.update_conv' split: option.splits)

lemma fold_visit_tuples:
  "tuples (directory_structures (fold visit ts st)) = tuples (directory_structures st) \<union> set ts"
  by (induction ts arbitrary: st) (simp_all add: tuples_add)

lemma fold_visit_level:
  "level_structures (directory_structures (fold visit ts st)) l =
     level_structures (directory_structures st) l \<union> {t \<in> set ts. length t = l}"
  by (induction ts arbitrary: st) (auto simp: level_structures_add)

lemma first_segments_Un: "first_segments (A \<union> B) = first_segments A \<union> first_segments B"
  by (auto simp: first_segments_def)

lemma first_segments_empty [simp]: "first_segments {} = {}"
  by (simp add: first_segments_def)

lemma first_segments_insert:
  "first_segments (insert t S) = (case t of [] \<Rightarrow> {} | r # _ \<Rightarrow> {r}) \<union> first_segments S"
  by (auto simp: first_segments_def split: list.splits)

lemma fold_add_root_set: "set (fold add_root ss acc) = set acc \<union> first_segments (set ss)"
  by (induction ss arbitrary: acc)
     (auto simp: add_root_def first_segments_insert split: list.splits)

lemma fold_add_root_distinct: "distinct (fold add_root ss acc) = distinct acc"
  by (induction ss arbitrary: acc) (auto simp: add_root_def split: list.splits)

lemma fold_levels_set:
  "set (fold (\<lambda>(level, structures) acc. fold add_root structures acc) ds acc) =
     set acc \<union> first_segments (tuples ds)"
proof (induction ds arbitrary: acc)
  case Nil
  show ?case by simp
next
  case (Cons p ds)
  obtain k v where p: "p = (k, v)" by (cases p)
  show ?case unfolding p by (simp add: Cons fold_add_root_set first_segments_Un Un_assoc)
qed

lemma fold_levels_distinct:
  "distinct (fold (\<lambda>(level, structures) acc. fold add_root structures acc) ds acc) = distinct acc"
  by (induction ds arbitrary: acc) (simp_all add: fold_add_root_distinct split_beta)

lemma set_root_paths_of: "set (root_paths_of ds) = first_segments (tuples ds)"
  by (simp add: root_paths_of_def fold_levels_set)

lemma distinct_root_paths_of: "distinct (root_paths_of ds)"
  by (simp add: root_paths_of_def fold_levels_distinct)

lemma first_segments_dirs: "first_segments (set (dirs items [])) = set (top_names items)"
proof
  show "first_segments (set (dirs items [])) \<subseteq> set (top_names items)"
    using dirs_shape[of _ items "[]"] by (fastforce simp: first_segments_def)
  show "set (top_names items) \<subseteq> first_segments (set (dirs items []))"
    using dirs_top[of _ items "[]"] by (fastforce simp: first_segments_def)
qed

lemma first_segments_dirs1:
  "first_segments {t \<in> set (dirs items []). length t = 1} = set (top_names items)"
proof
  show "first_segments {t \<in> set (dirs items []). length t = 1} \<subseteq> set (top_names items)"
    using dirs_shape[of _ items "[]"] by (fastforce simp: first_segments_def)
  show "set (top_names items) \<subseteq> first_segments {t \<in> set (dirs items []). length t = 1}"
  proof
    fix n assume "n \<in> set (top_names items)"
    then have "[n] \<in> set (dirs items [])" using dirs_top[of n items "[]"] by simp
    then show "n \<in> first_segments {t \<in> set (dirs items []). length t = 1}"
      unfolding first_segments_def by (intro CollectI exI[of _ "[]"]) simp
  qed
qed

lemma collected_root_paths:
  assumes "directory_structures st0 = []"
  shows "set (root_paths_of (directory_structures (validate_folder_structure items [] st0)))
           = first_segments (level_structures
               (directory_structures (validate_folder_structure items [] st0)) 1)"
proof -
  have "tuples (directory_structures (validate_folder_structure items [] st0))
          = set (dirs items [])"
    by (simp add: vfs_fold fold_visit_tuples assms)
  moreover have "level_structures (directory_structures (validate_folder_structure items [] st0)) 1
          = {t \<in> set (dirs items []). length t = 1}"
    by (simp add: vfs_fold fold_visit_level assms)
  ultimately show ?thesis
    by (simp only: set_root_paths_of first_segments_dirs first_segments_dirs1)
qed

section \<open>Facts about conflict detection\<close>

lemma check_levels_frame:
  "schema (check_levels ds st) = schema st
   \<and> partition_values (check_levels ds st) = partition_values st
   \<and> filter is_schema_mismatch (errors (check_levels ds st)) = filter is_schema_mismatch (errors st)
   \<and> filter is_partition_mismatch (errors (check_levels ds st))
       = filter is_partition_mismatch (errors st)
   \<and> filter is_read_error (errors (check_levels ds st)) = filter is_read_error (errors st)"
  by (induction ds st rule: check_levels.induct) (simp_all add: filter_empty_conv)

lemma check_conflicting_frame:
  "schema (check_conflicting_structures st) = schema st
   \<and> partition_values (check_conflicting_structures st) = partition_values st
   \<and> filter is_schema_mismatch (errors (check_conflicting_structures st))
       = filter is_schema_mismatch (errors st)
   \<and> filter is_partition_mismatch (errors (check_conflicting_structures st))
       = filter is_partition_mismatch (errors st)
   \<and> filter is_read_error (errors (check_conflicting_structures st))
       = filter is_read_error (errors st)"
  by (simp add: check_conflicting_structures_def Let_def check_levels_frame filter_empty_conv)

section \<open>Facts about the second pass\<close>

lemma vpf_fold:
  "validate_parquet_files items path st = fold check_entry (parquet_files items path) st"
  by (induction items path st rule: validate_parquet_files.induct)
     (simp_all add: check_entry_def)

lemma check_partitions_eq:
  "check_partitions item segs st =
     st\<lparr>errors := errors st @
          map (\<lambda>seg. PartitionValueMismatch item (snd (split_first seg)) (fst (split_first seg)))
              (filter (offending (partition_values st)) segs)\<rparr>"
proof (induction segs arbitrary: st)
  case Nil
  show ?case by simp
next
  case (Cons seg segs)
  show ?case
    by (cases "split_first seg")
       (simp add: Cons offending_def split: option.splits)
qed

lemma check_schema_eq:
  "check_schema item s st =
     st\<lparr>schema := reference_of (schema st) [(item, Opened s stored)],
        errors := errors st @ schema_mismatches (schema st) (item, Opened s stored)\<rparr>"
  by (auto simp: check_schema_def reference_of_def schema_mismatches_def split: option.splits)

lemma check_entry_eq:
  "check_entry f st =
     st\<lparr>schema := reference_of (schema st) [f],
        errors := errors st @ schema_mismatches (schema st) f
                    @ partition_mismatches (partition_values st) f @ read_errors f\<rparr>"
proof (cases f)
  case (Pair p c)
  show ?thesis
  proof (cases c)
    case (OpenFails e)
    then show ?thesis
      by (simp add: Pair check_entry_def check_file_def try_file_def reference_of_def
            schema_mismatches_def partition_mismatches_def read_errors_def split: option.splits)
  next
    case (Opened s stored)
    show ?thesis
    proof (cases stored)
      case (Inl e)
      then show ?thesis
        by (simp add: Pair Opened check_entry_def check_file_def try_file_def Let_def
              check_schema_eq[where stored = stored]
              partition_mismatches_def read_errors_def)
    next
      case (Inr file_path)
      then show ?thesis
        by (simp add: Pair Opened check_entry_def check_file_def try_file_def Let_def
              check_schema_eq[where stored = stored] check_partitions_eq
              partition_mismatches_def read_errors_def)
    qed
  qed
qed

lemma check_entry_schema: "schema (check_entry f st) = reference_of (schema st) [f]"
  by (simp add: check_entry_eq)

lemma check_entry_errors:
  "errors (check_entry f st) =
     errors st @ schema_mismatches (schema st) f
       @ partition_mismatches (partition_values st) f @ read_errors f"
  by (simp add: check_entry_eq)

lemma check_entry_values: "partition_values (check_entry f st) = partition_values st"
  by (simp add: check_entry_eq)

lemma reference_of_Nil [simp]: "reference_of r [] = r"
  by (cases r) (simp_all add: reference_of_def)

lemma reference_of_Cons: "reference_of (reference_of r [f]) fs = reference_of r (f # fs)"
  by (cases f; cases "snd f") (auto simp: reference_of_def split: option.splits)

lemma fold_check_values: "partition_values (fold check_entry fs st) = partition_values st"
  by (induction fs arbitrary: st) (simp_all add: check_entry_values)

lemma fold_check_schema: "schema (fold check_entry fs st) = reference_of (schema st) fs"
  by (induction fs arbitrary: st) (simp_all add: check_entry_schema reference_of_Cons)

lemma kinds_of_schema_mismatches:
  "filter is_schema_mismatch (schema_mismatches r f) = schema_mismatches r f"
  "filter is_partition_mismatch (schema_mismatches r f) = []"
  "filter is_read_error (schema_mismatches r f) = []"
  by (auto simp: schema_mismatches_def split: option.splits parquet.splits)

lemma kinds_of_partition_mismatches:
  "filter is_schema_mismatch (partition_mismatches pv f) = []"
  "filter is_partition_mismatch (partition_mismatches pv f) = partition_mismatches pv f"
  "filter is_read_error (partition_mismatches pv f) = []"
  by (auto simp: partition_mismatches_def filter_empty_conv filter_id_conv
           split: parquet.splits sum.splits)

lemma kinds_of_read_errors:
  "filter is_schema_mismatch (read_errors f) = []"
  "filter is_partition_mismatch (read_errors f) = []"
  "filter is_read_error (read_errors f) = read_errors f"
  by (auto simp: read_errors_def split: parquet.splits sum.splits)

lemmas kinds = kinds_of_schema_mismatches kinds_of_partition_mismatches kinds_of_read_errors

lemma fold_check_read_errors:
  "filter is_read_error (errors (fold check_entry fs st)) =
     filter is_read_error (errors st) @ concat (map read_errors fs)"
  by (induction fs arbitrary: st) (simp_all add: check_entry_errors kinds)

lemma fold_check_partition_mismatches:
  "filter is_partition_mismatch (errors (fold check_entry fs st)) =
     filter is_partition_mismatch (errors st)
       @ concat (map (partition_mismatches (partition_values st)) fs)"
  by (induction fs arbitrary: st) (simp_all add: check_entry_errors check_entry_values kinds)

lemma schema_mismatches_first: "schema_mismatches (reference_of None (f # fs)) f = []"
  by (cases f; cases "snd f")
     (auto simp: schema_mismatches_def reference_of_def split: option.splits)

lemma schema_mismatches_head:
  "schema_mismatches r f = schema_mismatches (reference_of r (f # fs)) f"
proof (cases r)
  case None
  then show ?thesis
    using schema_mismatches_first[of f fs] by (simp add: schema_mismatches_def)
next
  case (Some x)
  then show ?thesis by (simp add: reference_of_def)
qed

lemma fold_check_schema_mismatches:
  "filter is_schema_mismatch (errors (fold check_entry fs st)) =
     filter is_schema_mismatch (errors st)
       @ concat (map (schema_mismatches (reference_of (schema st) fs)) fs)"
proof (induction fs arbitrary: st)
  case Nil
  show ?case by simp
next
  case (Cons f fs)
  show ?case
    by (simp add: Cons check_entry_errors check_entry_schema kinds reference_of_Cons)
       (rule schema_mismatches_head)
qed

section \<open>Facts about a run\<close>

lemma run_eq:
  "run items =
     validate_parquet_files items []
       (check_conflicting_structures (validate_folder_structure items [] init))"
  by (simp add: run_def validate_def Let_def)

lemma before_second_pass:
  "schema (check_conflicting_structures (validate_folder_structure items [] init)) = None"
  "partition_values (check_conflicting_structures (validate_folder_structure items [] init))
     = partition_values (validate_folder_structure items [] init)"
  "filter is_schema_mismatch
     (errors (check_conflicting_structures (validate_folder_structure items [] init))) = []"
  "filter is_partition_mismatch
     (errors (check_conflicting_structures (validate_folder_structure items [] init))) = []"
  "filter is_read_error
     (errors (check_conflicting_structures (validate_folder_structure items [] init))) = []"
  by (simp_all add: check_conflicting_frame vfs_fold fold_visit_frame init_def)

section \<open>The claims\<close>

subsection \<open>C1: one partition key per depth\<close>

text \<open>
  C1 says that a tree in which every depth has at most one partition key, such as
  \<^verbatim>\<open>year=...\<close> directories at depth 1 and \<^verbatim>\<open>month=...\<close> directories at depth 2, gets no
  conflicting-structure entry and validates when the file schemas agree. The loop of
  lines 104 to 108 is commented "Get all partition keys at this level", but it takes the
  key of every name of each tuple, so the tuple \<^verbatim>\<open>(year=2020, month=01)\<close> of depth 2 alone
  yields the two keys \<^verbatim>\<open>year\<close> and \<^verbatim>\<open>month\<close>. The run on the tree
  \<^verbatim>\<open>year=2020/month=01/part-0.parquet\<close> returns failure with the three entries of a
  conflict at depth 2.
\<close>

theorem two_level_partition_layout_reported:
  "validate \<lparr>path_exists = True,
      iterdir = Inr [Dir ''year=2020''
                      [Dir ''month=01''
                         [File ''part-0.parquet''
                            (Opened (0::nat) (Inr ''year=2020/month=01/part-0.parquet''))]]]\<rparr> init
   = (False,
      \<lparr>schema = Some 0,
       partition_columns = {''year'', ''month''},
       partition_values = [''year'' \<mapsto> {''2020''}, ''month'' \<mapsto> {''01''}],
       errors = [ConflictingStructures, SuspiciousPath [''year=2020'', ''month=01''], Remediation],
       directory_structures = [(1, [[''year=2020'']]), (2, [[''year=2020'', ''month=01'']])]\<rparr>)"
  by (simp add: eval_defs insert_commute)

subsection \<open>C2: which directories contribute a key and a value\<close>

text \<open>
  C2 says that a directory whose name has more than one \<^verbatim>\<open>=\<close> contributes no pair. The
  test of line 62 is \<^verbatim>\<open>"=" in item.name\<close> and the split is \<^verbatim>\<open>split("=", 1)\<close>: the name
  \<^verbatim>\<open>a=b=c\<close> has two, and contributes the key \<^verbatim>\<open>a\<close> with the value \<^verbatim>\<open>b=c\<close>.
\<close>

theorem name_with_two_equals_contributes:
  "count_list ''a=b=c'' CHR ''='' = 2
   \<and> partition_columns (validate_folder_structure [Dir ''a=b=c'' []] [] (init :: nat validator))
       = {''a''}
   \<and> partition_values (validate_folder_structure [Dir ''a=b=c'' []] [] (init :: nat validator)) ''a''
       = Some {''b=c''}"
  by (simp add: eval_defs)

text \<open>
  C2, as the code has it: after the first pass from a fresh validator, the keys are
  exactly the \<open>k\<close> without \<^verbatim>\<open>=\<close> for which some directory of the tree is named
  \<open>k=v\<close>, the dictionary of values has exactly these keys, and the values of \<open>k\<close>
  are exactly the \<open>v\<close> (with or without further \<^verbatim>\<open>=\<close>) of the directories named
  \<open>k=v\<close>. So a directory contributes a pair exactly when its name has at least one
  \<^verbatim>\<open>=\<close>, split at the first one, and a name with none contributes nothing.
\<close>

theorem collected_partitions:
  "partition_columns (validate_folder_structure items cur init) =
     {k. \<exists>v. k @ CHR ''='' # v \<in> set (dir_names items) \<and> CHR ''='' \<notin> set k}
   \<and> dom (partition_values (validate_folder_structure items cur init)) =
       partition_columns (validate_folder_structure items cur init)
   \<and> (\<forall>k. values_of (validate_folder_structure items cur init) k =
         {v. k @ CHR ''='' # v \<in> set (dir_names items) \<and> CHR ''='' \<notin> set k})"
proof (intro conjI allI)
  show "partition_columns (validate_folder_structure items cur init) =
     {k. \<exists>v. k @ CHR ''='' # v \<in> set (dir_names items) \<and> CHR ''='' \<notin> set k}"
    unfolding vfs_fold fold_visit_columns last_dirs_set key_of_some_name
    by (simp add: init_def)
  show "dom (partition_values (validate_folder_structure items cur init)) =
       partition_columns (validate_folder_structure items cur init)"
    unfolding vfs_fold fold_visit_columns fold_visit_dom by (simp add: init_def)
  show "values_of (validate_folder_structure items cur init) k =
         {v. k @ CHR ''='' # v \<in> set (dir_names items) \<and> CHR ''='' \<notin> set k}" for k
    unfolding vfs_fold fold_visit_values_of last_dirs_set values_of_init split_first_iff
    by blast
qed

subsection \<open>C3: root ambiguity\<close>

text \<open>
  C3: for the structure collected from a tree, let \<open>R\<close> be the set of first names
  of the tuples of depth 1. If \<open>R\<close> has more than one element and not all of them
  contain \<^verbatim>\<open>=\<close>, conflict detection appends one block to the error list and does
  nothing else: the entry with the tag, one entry for each element of \<open>R\<close> (each
  once), and the remediation text; the levels are not checked. If \<open>R\<close> has at most
  one element, or all its elements contain \<^verbatim>\<open>=\<close>, the first step appends nothing and the
  result is that of the check of the levels. The first tree of the witness has the root
  directories \<^verbatim>\<open>a\<close> and \<^verbatim>\<open>year=2020\<close>, the latter with a subdirectory \<^verbatim>\<open>month=01\<close>; the
  second has \<^verbatim>\<open>year=2020\<close> and \<^verbatim>\<open>year=2021\<close>.
\<close>

theorem root_ambiguity:
  assumes "directory_structures st0 = []"
    and "st = validate_folder_structure items [] st0"
    and "R = first_segments (level_structures (directory_structures st) 1)"
  shows "(1 < card R \<and> \<not> (\<forall>r \<in> R. has_eq r) \<longrightarrow>
           (\<exists>paths. distinct paths \<and> set paths = R \<and>
              check_conflicting_structures st =
                st\<lparr>errors := errors st @ [ConflictingStructures]
                      @ map (\<lambda>r. SuspiciousPath [r]) paths @ [Remediation]\<rparr>))
       \<and> (card R \<le> 1 \<or> (\<forall>r \<in> R. has_eq r) \<longrightarrow>
           check_conflicting_structures st = check_levels (directory_structures st) st)"
proof -
  let ?rp = "root_paths_of (directory_structures st)"
  have s: "set ?rp = R" using collected_root_paths[OF assms(1)] assms(2,3) by simp
  have d: "distinct ?rp" by (rule distinct_root_paths_of)
  have c: "card R = length ?rp" using s d distinct_card by metis
  have a: "list_all has_eq ?rp = (\<forall>r \<in> R. has_eq r)" using s by (simp add: list_all_iff)
  show ?thesis
  proof (intro conjI impI)
    assume "1 < card R \<and> \<not> (\<forall>r \<in> R. has_eq r)"
    then have "check_conflicting_structures st =
                st\<lparr>errors := errors st @ [ConflictingStructures]
                      @ map (\<lambda>r. SuspiciousPath [r]) ?rp @ [Remediation]\<rparr>"
      using c a by (simp add: check_conflicting_structures_def Let_def)
    with s d show "\<exists>paths. distinct paths \<and> set paths = R \<and>
              check_conflicting_structures st =
                st\<lparr>errors := errors st @ [ConflictingStructures]
                      @ map (\<lambda>r. SuspiciousPath [r]) paths @ [Remediation]\<rparr>"
      by blast
  next
    assume "card R \<le> 1 \<or> (\<forall>r \<in> R. has_eq r)"
    then show "check_conflicting_structures st = check_levels (directory_structures st) st"
      using c a by (auto simp: check_conflicting_structures_def Let_def)
  qed
qed

theorem root_ambiguity_witness:
  "(\<exists>paths. distinct paths \<and> set paths = {''a'', ''year=2020''} \<and>
      check_conflicting_structures
        (validate_folder_structure [Dir ''a'' [], Dir ''year=2020'' [Dir ''month=01'' []]] [] (init :: nat validator)) =
      (validate_folder_structure [Dir ''a'' [], Dir ''year=2020'' [Dir ''month=01'' []]] [] init)
        \<lparr>errors := errors (validate_folder_structure [Dir ''a'' [], Dir ''year=2020'' [Dir ''month=01'' []]] [] init)
            @ [ConflictingStructures] @ map (\<lambda>r. SuspiciousPath [r]) paths @ [Remediation]\<rparr>)
   \<and> check_conflicting_structures
        (validate_folder_structure [Dir ''year=2020'' [], Dir ''year=2021'' []] [] (init :: nat validator)) =
      check_levels
        (directory_structures
          (validate_folder_structure [Dir ''year=2020'' [], Dir ''year=2021'' []] [] (init :: nat validator)))
        (validate_folder_structure [Dir ''year=2020'' [], Dir ''year=2021'' []] [] init)"
proof
  let ?st = "validate_folder_structure [Dir ''a'' [], Dir ''year=2020'' [Dir ''month=01'' []]] [] (init :: nat validator)"
  have i: "directory_structures (init :: nat validator) = []" by (simp add: init_def)
  have R: "first_segments (level_structures (directory_structures ?st) 1) = {''a'', ''year=2020''}"
    by (simp add: eval_defs level_structures_def first_segments_insert)
  have h: "1 < card {''a'', ''year=2020''} \<and> \<not> (\<forall>r \<in> {''a'', ''year=2020''}. has_eq r)"
    by (simp add: has_eq_def)
  from root_ambiguity[OF i refl R[symmetric]] h
  show "\<exists>paths. distinct paths \<and> set paths = {''a'', ''year=2020''} \<and>
      check_conflicting_structures ?st =
      ?st\<lparr>errors := errors ?st
            @ [ConflictingStructures] @ map (\<lambda>r. SuspiciousPath [r]) paths @ [Remediation]\<rparr>"
    by blast
next
  let ?st = "validate_folder_structure [Dir ''year=2020'' [], Dir ''year=2021'' []] [] (init :: nat validator)"
  have i: "directory_structures (init :: nat validator) = []" by (simp add: init_def)
  have R: "first_segments (level_structures (directory_structures ?st) 1) = {''year=2020'', ''year=2021''}"
    by (simp add: eval_defs level_structures_def first_segments_insert)
  have h: "\<forall>r \<in> {''year=2020'', ''year=2021''}. has_eq r"
    by (simp add: has_eq_def)
  from root_ambiguity[OF i refl R[symmetric]] h
  show "check_conflicting_structures ?st = check_levels (directory_structures ?st) ?st"
    by blast
qed

subsection \<open>C4: the reference schema\<close>

text \<open>
  C4 says that the reference schema comes from the first file that is read
  successfully. Line 139 assigns it as soon as \<^verbatim>\<open>pq.ParquetFile\<close> has returned, before
  the stored path is extracted. With a first file that opens with schema 1 and then
  fails in \<^verbatim>\<open>row_group(0)\<close>, and a second file that is read in full with schema 2, the
  first file read without a read error has schema 2, yet the reference is 1 and the
  second file gets a schema mismatch.
\<close>

theorem reference_from_file_with_read_error:
  "first_fully_read
     (parquet_files
        [File ''a.parquet'' (Opened (1::nat) (Inl ''index out of range'')),
         File ''b.parquet'' (Opened 2 (Inr ''''))] [])
     = Some 2
   \<and> schema (run [File ''a.parquet'' (Opened (1::nat) (Inl ''index out of range'')),
                  File ''b.parquet'' (Opened 2 (Inr ''''))])
     = Some 1
   \<and> errors (run [File ''a.parquet'' (Opened (1::nat) (Inl ''index out of range'')),
                  File ''b.parquet'' (Opened 2 (Inr ''''))])
     = [ReadError [''a.parquet''] ''index out of range'',
        SchemaMismatch [''b.parquet''] 1 2]"
  by (simp add: eval_defs)

text \<open>
  C4, as the code has it: at the end of a run the reference schema is the schema of
  the first file that opens (whether or not its stored path could be extracted
  afterwards), and the schema-mismatch entries of the run are, in the order of the
  second pass, one for every file that opens with a schema different from that
  reference, naming the file, the reference and the schema found. Every file is
  compared with the same reference, by equality, whatever was recorded for the files
  before it.
\<close>

theorem reference_schema_fixed:
  "schema (run items) = first_opened (parquet_files items [])
   \<and> filter is_schema_mismatch (errors (run items)) =
       concat (map (schema_mismatches (first_opened (parquet_files items [])))
                   (parquet_files items []))"
  by (simp add: run_eq vpf_fold fold_check_schema fold_check_schema_mismatches
        before_second_pass reference_of_def)

subsection \<open>C5: partition values of the stored path\<close>

text \<open>
  C5: the partition-value-mismatch entries of a run are, in the order of the second
  pass, one for each offending segment of the stored path of each file that is read in
  full: a segment with \<^verbatim>\<open>=\<close> whose key is in the dictionary collected by the first pass
  and whose value is not among the values of that key. The entry names the file, the
  value and the key. A segment whose key is not in the dictionary is not offending
  and gives no entry.
\<close>

theorem partition_value_mismatches:
  "filter is_partition_mismatch (errors (run items)) =
     concat (map (partition_mismatches (partition_values (validate_folder_structure items [] init)))
                 (parquet_files items []))"
  by (simp add: run_eq vpf_fold fold_check_partition_mismatches before_second_pass)

text \<open>
  The example of the specification: a file below \<^verbatim>\<open>month=01\<close> whose stored path says
  \<^verbatim>\<open>month=13\<close>.
\<close>

lemma month_13_example:
  "errors (run [Dir ''month=01''
                  [File ''f.parquet'' (Opened (0::nat) (Inr ''month=13/f.parquet''))]])
     = [PartitionValueMismatch [''month=01'', ''f.parquet''] ''13'' ''month'']"
  by (simp add: eval_defs)

subsection \<open>C6: success and the exit code\<close>

text \<open>
  C6: \<^verbatim>\<open>validate\<close> returns \<^verbatim>\<open>True\<close> if and only if the error list is empty when it
  returns, and \<^verbatim>\<open>main\<close> exits with 1 whenever that list is not empty, with 0
  otherwise.
\<close>

theorem success_iff_no_errors:
  "fst (validate b st) = (errors (snd (validate b st)) = [])
   \<and> main b = (if errors (snd (validate b init)) = [] then 0 else 1)"
proof
  show v: "fst (validate b st) = (errors (snd (validate b st)) = [])" for st :: "'a validator"
    by (simp add: validate_def Let_def split: sum.splits)
  show "main b = (if errors (snd (validate b init)) = [] then 0 else 1)"
    using v[of init] by (cases "validate b init") (simp add: main_def)
qed

subsection \<open>C7: files that cannot be read\<close>

text \<open>
  C7: the read-error entries of a run are, in the order of the second pass, exactly one
  for each file for which a call of the reader raises, naming that file; and the second
  pass checks every file in turn from the state the files before it have left, whether
  or not one of them could be read.
\<close>

theorem read_errors_do_not_stop_the_run:
  "filter is_read_error (errors (run items)) = concat (map read_errors (parquet_files items []))
   \<and> run items =
       fold check_entry (parquet_files items [])
         (check_conflicting_structures (validate_folder_structure items [] init))"
  by (simp add: run_eq vpf_fold fold_check_read_errors before_second_pass)

subsection \<open>C8: a base path that does not exist\<close>

text \<open>
  C8: when the base path does not exist, \<^verbatim>\<open>validate\<close> returns \<^verbatim>\<open>False\<close> and the only
  change of the validator is one missing-path entry: nothing is collected, no conflict is
  looked for and no file is opened.
\<close>

theorem missing_base_path_aborts:
  "\<not> path_exists b \<Longrightarrow>
     validate b st = (False, st\<lparr>errors := errors st @ [BasePathMissing]\<rparr>)"
  by (simp add: validate_def)

theorem missing_base_path_aborts_witness:
  "validate \<lparr>path_exists = False, iterdir = Inl ''[Errno 2] No such file or directory''\<rparr>
     (init :: nat validator)
   = (False, init\<lparr>errors := [BasePathMissing]\<rparr>)"
  using missing_base_path_aborts
    [of "\<lparr>path_exists = False, iterdir = Inl ''[Errno 2] No such file or directory''\<rparr>"
        "init :: nat validator"]
  by (simp add: init_def)

subsection \<open>C9: a file that opens and then cannot be read\<close>

text \<open>
  C9: when no reference schema is set and the next file opens with schema \<open>s\<close> but
  the extraction of its stored path raises, a read error is recorded for that file and
  \<open>s\<close> is the reference from then on: it is the reference at the end of the pass,
  and every later file that opens with another schema gets a mismatch against \<open>s\<close>.
\<close>

theorem unreadable_file_sets_reference:
  assumes "suffix name = ''.parquet''" and "schema st = None"
  shows "schema (validate_parquet_files (File name (Opened s (Inl e)) # rest) path st) = Some s
    \<and> filter is_read_error
        (errors (validate_parquet_files (File name (Opened s (Inl e)) # rest) path st))
      = filter is_read_error (errors st) @ ReadError (path @ [name]) e
          # concat (map read_errors (parquet_files rest path))
    \<and> filter is_schema_mismatch
        (errors (validate_parquet_files (File name (Opened s (Inl e)) # rest) path st))
      = filter is_schema_mismatch (errors st)
          @ concat (map (schema_mismatches (Some s)) (parquet_files rest path))"
proof -
  let ?f = "(path @ [name], Opened s (Inl e))"
  let ?st1 = "check_entry ?f st"
  have run: "validate_parquet_files (File name (Opened s (Inl e)) # rest) path st
               = fold check_entry (parquet_files rest path) ?st1"
    using assms(1) by (simp add: vpf_fold)
  have sc: "schema ?st1 = Some s"
    using assms(2) by (simp add: check_entry_schema reference_of_def)
  have er: "errors ?st1 = errors st @ [ReadError (path @ [name]) e]"
    using assms(2)
    by (simp add: check_entry_errors schema_mismatches_def partition_mismatches_def
          read_errors_def)
  have 1: "schema (fold check_entry (parquet_files rest path) ?st1) = Some s"
    by (simp add: fold_check_schema sc reference_of_def)
  have 2: "filter is_read_error (errors (fold check_entry (parquet_files rest path) ?st1))
      = filter is_read_error (errors st) @ ReadError (path @ [name]) e
          # concat (map read_errors (parquet_files rest path))"
    by (simp add: fold_check_read_errors er)
  have 3: "filter is_schema_mismatch (errors (fold check_entry (parquet_files rest path) ?st1))
      = filter is_schema_mismatch (errors st)
          @ concat (map (schema_mismatches (Some s)) (parquet_files rest path))"
    by (simp add: fold_check_schema_mismatches er sc reference_of_def)
  show ?thesis unfolding run using 1 2 3 by blast
qed

theorem unreadable_file_sets_reference_witness:
  "schema (validate_parquet_files
             [File ''empty.parquet'' (Opened (7::nat) (Inl ''index out of range'')),
              File ''full.parquet'' (Opened 8 (Inr ''''))] [''d''] init) = Some 7
   \<and> errors (validate_parquet_files
             [File ''empty.parquet'' (Opened (7::nat) (Inl ''index out of range'')),
              File ''full.parquet'' (Opened 8 (Inr ''''))] [''d''] init)
     = [ReadError [''d'', ''empty.parquet''] ''index out of range'',
        SchemaMismatch [''d'', ''full.parquet''] 7 8]"
proof -
  have 1: "suffix ''empty.parquet'' = ''.parquet''" by (simp add: suffix_def)
  have 2: "schema (init :: nat validator) = None" by (simp add: init_def)
  from unreadable_file_sets_reference[OF 1 2, of 7 "''index out of range''"
      "[File ''full.parquet'' (Opened 8 (Inr ''''))]" "[''d'']"]
  have "schema (validate_parquet_files
             [File ''empty.parquet'' (Opened (7::nat) (Inl ''index out of range'')),
              File ''full.parquet'' (Opened 8 (Inr ''''))] [''d''] init) = Some 7"
    by simp
  moreover have "errors (validate_parquet_files
             [File ''empty.parquet'' (Opened (7::nat) (Inl ''index out of range'')),
              File ''full.parquet'' (Opened 8 (Inr ''''))] [''d''] init)
     = [ReadError [''d'', ''empty.parquet''] ''index out of range'',
        SchemaMismatch [''d'', ''full.parquet''] 7 8]"
    by (simp add: eval_defs)
  ultimately show ?thesis by simp
qed

subsection \<open>C10: a base path that is not a directory\<close>

text \<open>
  C10: when the base path exists and listing it raises, \<^verbatim>\<open>validate\<close> returns
  \<^verbatim>\<open>False\<close> and the only change of the validator is one catch-all entry with the text of
  the exception: no missing-path entry, and no pass has changed the state.
\<close>

theorem base_path_not_a_directory:
  "path_exists b \<Longrightarrow> iterdir b = Inl e \<Longrightarrow>
     validate b st = (False, st\<lparr>errors := errors st @ [Unexpected e]\<rparr>)"
  by (simp add: validate_def)

theorem base_path_not_a_directory_witness:
  "validate \<lparr>path_exists = True, iterdir = Inl ''[Errno 20] Not a directory''\<rparr>
     (init :: nat validator)
   = (False, init\<lparr>errors := [Unexpected ''[Errno 20] Not a directory'']\<rparr>)"
  using base_path_not_a_directory
    [of "\<lparr>path_exists = True, iterdir = Inl ''[Errno 20] Not a directory''\<rparr>"
        "''[Errno 20] Not a directory''" "init :: nat validator"]
  by (simp add: init_def)

end
